theory Spec2Isabelle
  imports Main "HOL-Library.Log_Nat" "HOL-Library.Word"
begin

section \<open>Strings\<close>

text \<open>
  A Python \<open>str\<close> is a sequence of code points. A \<^typ>\<open>char\<close> stands for one code
  point below 256, so a \<^typ>\<open>string\<close> is a Python string of Latin-1 text, and the
  string methods below are the builtin ones on that range.
\<close>

definition isspace :: "char \<Rightarrow> bool" where
  "isspace c =
     (let n = (of_char c :: nat)
      in (9 \<le> n \<and> n \<le> 13) \<or> (28 \<le> n \<and> n \<le> 32) \<or> n = 133 \<or> n = 160)"

definition strip :: "string \<Rightarrow> string" where
  "strip s = rev (dropWhile isspace (rev (dropWhile isspace s)))"

definition replace_char :: "char \<Rightarrow> char \<Rightarrow> string \<Rightarrow> string" where
  "replace_char old new s = map (\<lambda>c. if c = old then new else c) s"

text \<open>
  \<open>str.lower\<close>: an upper-case letter is moved 32 code points up, which sets bit 5 of
  its code.
\<close>

definition lower_char :: "char \<Rightarrow> char" where
  "lower_char c =
     (let n = (of_char c :: nat)
      in if (65 \<le> n \<and> n \<le> 90) \<or> (192 \<le> n \<and> n \<le> 222 \<and> n \<noteq> 215)
         then (case c of Char b0 b1 b2 b3 b4 b5 b6 b7 \<Rightarrow> Char b0 b1 b2 b3 b4 True b6 b7)
         else c)"

definition lower :: "string \<Rightarrow> string" where
  "lower s = map lower_char s"

definition join :: "char \<Rightarrow> string list \<Rightarrow> string" where
  "join c xs = (case xs of [] \<Rightarrow> [] | y # ys \<Rightarrow> foldl (\<lambda>acc x. acc @ c # x) y ys)"

definition rfind :: "string \<Rightarrow> char \<Rightarrow> int" where
  "rfind s c =
     (if c \<in> set s
      then int (length s) - 1 - int (length (takeWhile (\<lambda>x. x \<noteq> c) (rev s)))
      else - 1)"

section \<open>Floating-point values\<close>

text \<open>
  A Python \<open>float\<close> is an IEEE binary64 value. A finite one is the rational it denotes
  (the two zeros are not told apart); \<open>fl\<close> rounds an exact rational to the nearest
  binary64 value, ties to even, with gradual underflow and overflow to infinity.
\<close>

datatype pyfloat = Finite rat | PosInf | NegInf | NaN

definition pow2 :: "int \<Rightarrow> rat" where
  "pow2 e = (if 0 \<le> e then 2 ^ nat e else 1 / 2 ^ nat (- e))"

definition round_half_even :: "rat \<Rightarrow> int" where
  "round_half_even r =
     (let f = \<lfloor>r\<rfloor>; d = r - of_int f
      in if d < 1 / 2 then f else if 1 / 2 < d then f + 1 else if even f then f else f + 1)"

definition ilog2 :: "rat \<Rightarrow> int" where
  "ilog2 q =
     (let (a, b) = quotient_of q;
          e = int (floorlog 2 (nat a)) - int (floorlog 2 (nat b))
      in if pow2 e \<le> q then e else e - 1)"

definition round64 :: "rat \<Rightarrow> rat" where
  "round64 q =
     (let ex = max (ilog2 q) (- 1022) - 52
      in of_int (round_half_even (q / pow2 ex)) * pow2 ex)"

definition fl :: "rat \<Rightarrow> pyfloat" where
  "fl q =
     (if q = 0 then Finite 0
      else let v = round64 \<bar>q\<bar>
           in if pow2 1024 \<le> v then (if 0 < q then PosInf else NegInf)
              else Finite (if 0 < q then v else - v))"

text \<open>The comparison \<open>lo <= x <= hi\<close> of floats; it is false at a NaN.\<close>

definition float_between :: "rat \<Rightarrow> rat \<Rightarrow> pyfloat \<Rightarrow> bool" where
  "float_between lo hi x = (case x of Finite q \<Rightarrow> lo \<le> q \<and> q \<le> hi | _ \<Rightarrow> False)"

section \<open>Exceptions\<close>

text \<open>
  The exceptions a run can end with. \<open>FileNotFoundError\<close> carries the name of the
  missing table, \<open>SchemaValueError\<close> is the \<open>ValueError\<close> raised for a header without
  the two columns, \<open>FloatValueError\<close> the \<open>ValueError\<close> of \<open>float()\<close> with the text it
  refused, \<open>RuntimeError\<close> carries its message. \<open>WaveError\<close> and \<open>SoundFileError\<close>
  stand for whatever \<open>wave.open\<close> and \<open>soundfile.SoundFile\<close> raise on a file they
  cannot read, \<open>OSError\<close> for a file that cannot be opened, \<open>UnicodeDecodeError\<close>
  and \<open>CsvError\<close> for a table whose text cannot be decoded or split into fields.
\<close>

datatype pyerror =
    FileNotFoundError string
  | SchemaValueError string
  | FloatValueError string
  | TypeError
  | AttributeError
  | KeyError
  | OverflowError
  | ZeroDivisionError
  | RuntimeError string
  | WaveError
  | SoundFileError
  | OSError
  | UnicodeDecodeError
  | CsvError

section \<open>The builtin \<open>float()\<close> on a string\<close>

text \<open>
  \<open>float()\<close> removes its own set of whitespace from both ends: the ASCII characters
  tab to carriage return and the space, and the two spaces above 127; unlike
  \<open>str.strip\<close> it keeps the separators 28 to 31, and then refuses them.
\<close>

definition float_isspace :: "char \<Rightarrow> bool" where
  "float_isspace c =
     (let n = (of_char c :: nat)
      in (9 \<le> n \<and> n \<le> 13) \<or> n = 32 \<or> n = 133 \<or> n = 160)"

definition float_strip :: "string \<Rightarrow> string" where
  "float_strip s = rev (dropWhile float_isspace (rev (dropWhile float_isspace s)))"

definition isdigit :: "char \<Rightarrow> bool" where
  "isdigit c = (let n = (of_char c :: nat) in 48 \<le> n \<and> n \<le> 57)"

definition digits_val :: "string \<Rightarrow> nat" where
  "digits_val ds = foldl (\<lambda>a c. 10 * a + (of_char c - 48)) 0 ds"

text \<open>An underscore is allowed between two digits only; \<open>prev\<close> is the character before.\<close>

fun strip_underscores :: "char \<Rightarrow> string \<Rightarrow> string option" where
  "strip_underscores prev [] = (if prev = CHR ''_'' then None else Some [])"
| "strip_underscores prev (c # cs) =
     (if c = CHR ''_'' then (if isdigit prev then strip_underscores c cs else None)
      else if prev = CHR ''_'' \<and> \<not> isdigit c then None
      else map_option ((#) c) (strip_underscores c cs))"

definition split_sign :: "string \<Rightarrow> bool \<times> string" where
  "split_sign s =
     (case s of
        [] \<Rightarrow> (False, [])
      | c # cs \<Rightarrow> if c = CHR ''-'' then (True, cs)
                  else if c = CHR ''+'' then (False, cs) else (False, s))"

text \<open>
  An unsigned decimal number: digits, an optional point and digits (at least one digit in
  all), an optional exponent. The result is its exact value.
\<close>

definition parse_number :: "string \<Rightarrow> rat option" where
  "parse_number s =
     (let ip = takeWhile isdigit s;
          r1 = dropWhile isdigit s;
          (fp, r2) = (case r1 of
                        [] \<Rightarrow> ([], [])
                      | c # cs \<Rightarrow> if c = CHR ''.''
                                  then (takeWhile isdigit cs, dropWhile isdigit cs)
                                  else ([], r1));
          m = of_nat (digits_val (ip @ fp)) / 10 ^ length fp
      in if ip @ fp = [] then None
         else case r2 of
                [] \<Rightarrow> Some m
              | c # cs \<Rightarrow>
                  if c = CHR ''e'' \<or> c = CHR ''E''
                  then (let (neg, ds) = split_sign cs
                        in if ds \<noteq> [] \<and> list_all isdigit ds
                           then Some (if neg then m / 10 ^ digits_val ds
                                      else m * 10 ^ digits_val ds)
                           else None)
                  else None)"

definition py_float :: "string \<Rightarrow> pyerror + pyfloat" where
  "py_float s =
     (case strip_underscores (CHR 0x00) s of
        None \<Rightarrow> Inl (FloatValueError s)
      | Some t \<Rightarrow>
          (let (neg, body) = split_sign (float_strip t); lb = lower body
           in if lb = ''inf'' \<or> lb = ''infinity'' then Inr (if neg then NegInf else PosInf)
              else if lb = ''nan'' then Inr NaN
              else case parse_number body of
                     None \<Rightarrow> Inl (FloatValueError s)
                   | Some q \<Rightarrow> Inr (fl (if neg then - q else q))))"

section \<open>Float arithmetic of the duration\<close>

text \<open>
  \<open>frames * 1000.0 / sr\<close> with \<open>frames\<close> and \<open>sr\<close> integers: each integer is converted
  to a float (\<open>OverflowError\<close> when it is too large), the product and the quotient are
  rounded, and a zero divisor raises \<open>ZeroDivisionError\<close>.
\<close>

definition int_to_float :: "int \<Rightarrow> pyerror + rat" where
  "int_to_float n = (case fl (of_int n) of Finite q \<Rightarrow> Inr q | _ \<Rightarrow> Inl OverflowError)"

definition fmul :: "rat \<Rightarrow> rat \<Rightarrow> pyfloat" where
  "fmul a b = fl (a * b)"

definition fdiv :: "pyfloat \<Rightarrow> rat \<Rightarrow> pyerror + pyfloat" where
  "fdiv a b =
     (if b = 0 then Inl ZeroDivisionError
      else Inr (case a of
                  Finite q \<Rightarrow> fl (q / b)
                | PosInf \<Rightarrow> if 0 < b then PosInf else NegInf
                | NegInf \<Rightarrow> if 0 < b then NegInf else PosInf
                | NaN \<Rightarrow> NaN))"

definition duration :: "int \<Rightarrow> int \<Rightarrow> pyerror + pyfloat" where
  "duration frames sr =
     (case int_to_float frames of
        Inl e \<Rightarrow> Inl e
      | Inr f \<Rightarrow> (case int_to_float sr of
                    Inl e \<Rightarrow> Inl e
                  | Inr s \<Rightarrow> fdiv (fmul f 1000) s))"

section \<open>Paths\<close>

text \<open>
  A path is its list of components. \<open>name\<close> is the last one and \<open>suffix\<close> is
  \<open>pathlib\<close>'s, as Python 3.13 and earlier compute it: the part of the name from its
  last dot on, when that dot is neither the first nor the last character of the name. \<open>str_path\<close> joins the components with
  the separator of the operating system.
\<close>

definition name :: "string list \<Rightarrow> string" where
  "name cs = (if cs = [] then [] else last cs)"

definition suffix :: "string list \<Rightarrow> string" where
  "suffix cs =
     (let n = name cs; i = rfind n (CHR ''.'')
      in if 0 < i \<and> i < int (length n) - 1 then drop (nat i) n else [])"

definition str_path :: "char \<Rightarrow> string list \<Rightarrow> string" where
  "str_path sep cs = join sep cs"

definition AUDIO_EXTS :: "string set" where
  "AUDIO_EXTS = {''.wav'', ''.flac'', ''.mp3'', ''.m4a'', ''.ogg''}"

section \<open>The audio tree and the environment\<close>

text \<open>
  An entry that \<open>root.rglob("*")\<close> yields: its components relative to the root, whether
  it is a regular file, and what the two decoders find in it. \<open>wave_header\<close> is the frame
  count and the frame rate that \<open>wave.open\<close> reads from the header, both 32-bit fields,
  or \<open>None\<close> when \<open>wave.open\<close> raises; \<open>sf_info\<close> is the frame count and sample rate
  that \<open>soundfile.SoundFile\<close> reports, or \<open>None\<close> when it raises.
\<close>

record fs_entry =
  comps :: "string list"
  is_file :: bool
  wave_header :: "(32 word \<times> 32 word) option"
  sf_info :: "(nat \<times> int) option"

text \<open>
  The environment of a run: whether \<open>import soundfile\<close> succeeds, the path separator,
  the name of the resolved root directory, and whether the output file and its parent
  directory can be created.
\<close>

record env =
  soundfile_available :: bool
  sep :: char
  root_name :: string
  out_writable :: bool

section \<open>audio_duration_ms\<close>

definition soundfile_message :: "string \<Rightarrow> string" where
  "soundfile_message sfx =
     ''Cannot read '' @ sfx @ ''; install `pip install soundfile` or convert to WAV.''"

definition audio_duration_ms :: "env \<Rightarrow> fs_entry \<Rightarrow> pyerror + pyfloat" where
  "audio_duration_ms ev path =
     (if lower (suffix (comps path)) = ''.wav''
      then (case wave_header path of
              None \<Rightarrow> Inl WaveError
            | Some (frames, sr) \<Rightarrow> duration (uint frames) (uint sr))
      else if \<not> soundfile_available ev
           then Inl (RuntimeError (soundfile_message (suffix (comps path))))
           else (case sf_info path of
                   None \<Rightarrow> Inl SoundFileError
                 | Some (n, sr) \<Rightarrow> duration (int n) sr))"

section \<open>read_split_tables\<close>

text \<open>
  A table of the split directory: absent, present but not openable, the rows that
  \<open>csv.reader\<close> yields for it (the first one is the header), or, for a file whose
  reading fails on the way, the rows yielded before the failure and the exception the
  reader then raises. \<open>dict_row\<close> is the
  dictionary \<open>csv.DictReader\<close> builds for a row: the field names zipped with the cells,
  then \<open>None\<close> under each field name the row is too short for. Cells beyond the field
  names go under the key \<open>None\<close>, which no lookup below reads.
\<close>

datatype table_file =
    Absent
  | Unreadable
  | Table "string list list"
  | Broken "string list list" pyerror

type_synonym split_map = "string \<rightharpoonup> (string \<times> pyfloat)"

definition dict_row :: "string list \<Rightarrow> string list \<Rightarrow> (string \<rightharpoonup> string option)" where
  "dict_row fieldnames row =
     fold (\<lambda>k d. d(k \<mapsto> None)) (drop (length row) fieldnames)
       (fold (\<lambda>(k, v) d. d(k \<mapsto> Some v)) (zip fieldnames row) Map.empty)"

text \<open>The body of the loop over the rows: the key and the pair stored under it.\<close>

definition row_entry ::
  "string \<Rightarrow> string list \<Rightarrow> string list \<Rightarrow> pyerror + (string \<times> (string \<times> pyfloat))" where
  "row_entry split_name fieldnames row =
     (let d = dict_row fieldnames row
      in case d ''stimuli'' of
           None \<Rightarrow> Inl KeyError
         | Some None \<Rightarrow> Inl AttributeError
         | Some (Some stimuli) \<Rightarrow>
             (let rel_path = replace_char (CHR 0x5C) (CHR ''/'') (strip stimuli)
              in case d ''mos'' of
                   None \<Rightarrow> Inl KeyError
                 | Some None \<Rightarrow> Inl TypeError
                 | Some (Some mos) \<Rightarrow>
                     (case py_float mos of
                        Inl e \<Rightarrow> Inl e
                      | Inr rating \<Rightarrow> Inr (rel_path, (split_name, rating)))))"

text \<open>The loop over the rows of one table; \<open>DictReader\<close> skips empty rows.\<close>

fun read_rows ::
  "string \<Rightarrow> string list \<Rightarrow> string list list \<Rightarrow> split_map \<Rightarrow> pyerror + split_map" where
  "read_rows split_name fieldnames [] mapping = Inr mapping"
| "read_rows split_name fieldnames (row # rows) mapping =
     (if row = [] then read_rows split_name fieldnames rows mapping
      else case row_entry split_name fieldnames row of
             Inl e \<Rightarrow> Inl e
           | Inr (rel_path, v) \<Rightarrow>
               read_rows split_name fieldnames rows (mapping(rel_path \<mapsto> v)))"

text \<open>
  One turn of the loop over the split names. A file without any row has no field names,
  and \<open>set(None)\<close> raises \<open>TypeError\<close>. In a file whose reading fails, the failure
  comes when the reader is asked for the row after the last one it yielded: for the
  header if there is none, else after the header is checked and the rows before are
  stored.
\<close>

definition read_table :: "string \<Rightarrow> table_file \<Rightarrow> split_map \<Rightarrow> pyerror + split_map" where
  "read_table split_name tf mapping =
     (case tf of
        Absent \<Rightarrow> Inl (FileNotFoundError (split_name @ ''.csv''))
      | Unreadable \<Rightarrow> Inl OSError
      | Table rs \<Rightarrow>
          (case rs of
             [] \<Rightarrow> Inl TypeError
           | fieldnames # rows \<Rightarrow>
               if {''stimuli'', ''mos''} - set fieldnames \<noteq> {}
               then Inl (SchemaValueError (split_name @ ''.csv''))
               else read_rows split_name fieldnames rows mapping)
      | Broken rs failure \<Rightarrow>
          (case rs of
             [] \<Rightarrow> Inl failure
           | fieldnames # rows \<Rightarrow>
               if {''stimuli'', ''mos''} - set fieldnames \<noteq> {}
               then Inl (SchemaValueError (split_name @ ''.csv''))
               else (case read_rows split_name fieldnames rows mapping of
                       Inl e \<Rightarrow> Inl e
                     | Inr mapping' \<Rightarrow> Inl failure)))"

fun read_tables ::
  "string list \<Rightarrow> (string \<Rightarrow> table_file) \<Rightarrow> split_map \<Rightarrow> pyerror + split_map" where
  "read_tables [] split_dir mapping = Inr mapping"
| "read_tables (split_name # rest) split_dir mapping =
     (case read_table split_name (split_dir split_name) mapping of
        Inl e \<Rightarrow> Inl e
      | Inr mapping' \<Rightarrow> read_tables rest split_dir mapping')"

definition read_split_tables :: "(string \<Rightarrow> table_file) \<Rightarrow> pyerror + split_map" where
  "read_split_tables split_dir = read_tables [''train'', ''val'', ''test''] split_dir Map.empty"

section \<open>build_manifest\<close>

record manifest_record =
  file_path :: string
  speaker_id :: string
  duration_ms :: pyfloat
  split :: string
  rating :: pyfloat

text \<open>
  What the generator does for one entry it does not skip silently: a warning on the
  diagnostic stream that names the path, or a record yielded to the caller.
\<close>

datatype event = Warning string | Yield manifest_record

definition rel_path_of :: "env \<Rightarrow> fs_entry \<Rightarrow> string" where
  "rel_path_of ev audio = replace_char (CHR 0x5C) (CHR ''/'') (str_path (sep ev) (comps audio))"

text \<open>\<open>audio.parent.name\<close>: the directory the file is in, the root itself at the top.\<close>

definition parent_name :: "env \<Rightarrow> fs_entry \<Rightarrow> string" where
  "parent_name ev audio =
     (if length (comps audio) \<le> 1 then root_name ev else name (butlast (comps audio)))"

text \<open>
  The generator, run to its end: the events in order, and the exception that ended it,
  if one did.
\<close>

fun build_manifest ::
  "env \<Rightarrow> split_map \<Rightarrow> fs_entry list \<Rightarrow> event list \<times> pyerror option" where
  "build_manifest ev split_map [] = ([], None)"
| "build_manifest ev split_map (audio # rest) =
     (if lower (suffix (comps audio)) \<notin> AUDIO_EXTS \<or> \<not> is_file audio
      then build_manifest ev split_map rest
      else let rel_path = rel_path_of ev audio
           in case split_map rel_path of
                None \<Rightarrow>
                  (let (evs, r) = build_manifest ev split_map rest
                   in (Warning rel_path # evs, r))
              | Some (sp, rt) \<Rightarrow>
                  (case audio_duration_ms ev audio of
                     Inl e \<Rightarrow> ([], Some e)
                   | Inr d \<Rightarrow>
                       (let (evs, r) = build_manifest ev split_map rest
                        in (Yield \<lparr>file_path = rel_path, speaker_id = parent_name ev audio,
                                   duration_ms = d, split = sp, rating = rt\<rparr> # evs, r))))"

section \<open>main\<close>

text \<open>
  The output path before and after a run: no file, a file with some earlier text, or the
  manifest the run wrote, one record per line. The diagnostic stream holds the warnings
  and, after a run that ends normally, the count of written entries.
\<close>

datatype out_file = Missing | Previous string | Manifest "manifest_record list"

datatype diag = Skipped string | Wrote nat

fun records_of :: "event list \<Rightarrow> manifest_record list" where
  "records_of [] = []"
| "records_of (Warning p # evs) = records_of evs"
| "records_of (Yield r # evs) = r # records_of evs"

fun warnings_of :: "event list \<Rightarrow> diag list" where
  "warnings_of [] = []"
| "warnings_of (Warning p # evs) = Skipped p # warnings_of evs"
| "warnings_of (Yield r # evs) = warnings_of evs"

definition main ::
  "env \<Rightarrow> (string \<Rightarrow> table_file) \<Rightarrow> fs_entry list \<Rightarrow> out_file
     \<Rightarrow> out_file \<times> diag list \<times> pyerror option" where
  "main ev split_dir tree out =
     (case read_split_tables split_dir of
        Inl e \<Rightarrow> (out, [], Some e)
      | Inr split_map \<Rightarrow>
          if \<not> out_writable ev then (out, [], Some OSError)
          else (let (evs, r) = build_manifest ev split_map tree
                in (Manifest (records_of evs),
                    warnings_of evs @ (if r = None then [Wrote (length (records_of evs))] else []),
                    r)))"

section \<open>Notions the properties are stated with\<close>

text \<open>The test of line 89: the entries the generator does not pass over in silence.\<close>

definition is_audio_file :: "fs_entry \<Rightarrow> bool" where
  "is_audio_file audio = (lower (suffix (comps audio)) \<in> AUDIO_EXTS \<and> is_file audio)"

text \<open>The path an event is about.\<close>

fun event_path :: "event \<Rightarrow> string" where
  "event_path (Warning p) = p"
| "event_path (Yield r) = file_path r"

text \<open>
  The keys and pairs that the rows of a table store, in the order of the rows, and those
  of the three tables in the order the tables are read.
\<close>

definition row_pairs ::
  "string \<Rightarrow> string list \<Rightarrow> string list list \<Rightarrow> (string \<times> (string \<times> pyfloat)) list" where
  "row_pairs split_name fieldnames rows =
     concat (map (\<lambda>row. if row = [] then []
                         else case row_entry split_name fieldnames row of
                                Inl e \<Rightarrow> []
                              | Inr kv \<Rightarrow> [kv]) rows)"

definition table_pairs :: "string \<Rightarrow> table_file \<Rightarrow> (string \<times> (string \<times> pyfloat)) list" where
  "table_pairs split_name tf =
     (case tf of
        Table (fieldnames # rows) \<Rightarrow> row_pairs split_name fieldnames rows
      | _ \<Rightarrow> [])"

definition processed_rows ::
  "(string \<Rightarrow> table_file) \<Rightarrow> (string \<times> (string \<times> pyfloat)) list" where
  "processed_rows split_dir =
     concat (map (\<lambda>split_name. table_pairs split_name (split_dir split_name))
               [''train'', ''val'', ''test''])"

text \<open>
  A table that is read without an exception: it is present with the two columns in its
  header, and the body of the loop succeeds on each of its non-empty rows taken alone.
\<close>

definition rows_ok :: "string \<Rightarrow> string list \<Rightarrow> string list list \<Rightarrow> bool" where
  "rows_ok split_name fieldnames rows =
     list_all (\<lambda>row. row = [] \<or> (case row_entry split_name fieldnames row of
                                       Inl e \<Rightarrow> False
                                     | Inr kv \<Rightarrow> True)) rows"

definition table_ok :: "string \<Rightarrow> table_file \<Rightarrow> bool" where
  "table_ok split_name tf =
     (case tf of
        Table (fieldnames # rows) \<Rightarrow>
          {''stimuli'', ''mos''} \<subseteq> set fieldnames \<and> rows_ok split_name fieldnames rows
      | _ \<Rightarrow> False)"

text \<open>\<open>sub in s\<close> on strings.\<close>

fun contains :: "string \<Rightarrow> string \<Rightarrow> bool" where
  "contains sub [] = (sub = [])"
| "contains sub (c # cs) = (take (length sub) (c # cs) = sub \<or> contains sub cs)"

section \<open>Example inputs\<close>

text \<open>
  A small data set on which the properties below are evaluated: four audio files and a
  text file in two speaker folders, and a split directory whose train table holds the
  same path twice.
\<close>

definition ex_env :: env where
  "ex_env = \<lparr>soundfile_available = False, sep = CHR 0x5C, root_name = ''stimuli_norm'',
              out_writable = True\<rparr>"

definition ex_a :: fs_entry where
  "ex_a = \<lparr>comps = [''spk1'', ''a.WAV''], is_file = True,
            wave_header = Some (16000, 16000), sf_info = None\<rparr>"

definition ex_notes :: fs_entry where
  "ex_notes = \<lparr>comps = [''spk1'', ''notes.txt''], is_file = True,
                wave_header = None, sf_info = None\<rparr>"

definition ex_b :: fs_entry where
  "ex_b = \<lparr>comps = [''spk2'', ''b.wav''], is_file = True,
            wave_header = Some (8000, 16000), sf_info = None\<rparr>"

definition ex_c :: fs_entry where
  "ex_c = \<lparr>comps = [''spk2'', ''c.flac''], is_file = True,
            wave_header = None, sf_info = Some (44100, 44100)\<rparr>"

definition ex_d :: fs_entry where
  "ex_d = \<lparr>comps = [''spk2'', ''d.wav''], is_file = True,
            wave_header = Some (100, 0), sf_info = None\<rparr>"

definition ex_split_dir :: "string \<Rightarrow> table_file" where
  "ex_split_dir =
     (\<lambda>_. Absent)
       (''train'' := Table [[''stimuli'', ''mos''],
                            [''spk1/a.WAV'', ''2''],
                            [],
                            ['' spk1'' @ [CHR 0x5C] @ ''a.WAV '', ''4.5'']],
        ''val'' := Table [[''stimuli'', ''mos'']],
        ''test'' := Table [[''mos'', ''stimuli'', ''note''],
                           [''3'', ''spk2/c.flac'', ''x''],
                           [''1e0'', ''spk2/d.wav'']])"

definition ex_split_map :: split_map where
  "ex_split_map =
     [''spk1/a.WAV'' \<mapsto> (''train'', Finite (9 / 2)),
      ''spk2/c.flac'' \<mapsto> (''test'', Finite 3),
      ''spk2/d.wav'' \<mapsto> (''test'', Finite 1)]"

definition ex_record_a :: manifest_record where
  "ex_record_a = \<lparr>file_path = ''spk1/a.WAV'', speaker_id = ''spk1'',
                   duration_ms = Finite 1000, split = ''train'', rating = Finite (9 / 2)\<rparr>"

definition ex_unrated_dir :: "string \<Rightarrow> table_file" where
  "ex_unrated_dir =
     (\<lambda>_. Table [[''stimuli'', ''mos'']])
       (''train'' := Table [[''stimuli'', ''mos''], [''a.wav'', ''7.5'']])"




section \<open>Rounding to binary64 is exact on representable values\<close>

lemma pow2_power_int: "pow2 e = power_int 2 e"
  by (simp add: pow2_def power_int_def field_simps)

lemma pow2_pos: "0 < pow2 e"
  by (simp add: pow2_power_int)

lemma pow2_add: "pow2 (a + b) = pow2 a * pow2 b"
  by (simp add: pow2_power_int power_int_add)

lemma pow2_mono: "a \<le> b \<Longrightarrow> pow2 a \<le> pow2 b"
  by (simp add: pow2_power_int power_int_increasing)

lemma pow2_less_cancel: "pow2 a < pow2 b \<Longrightarrow> a < b"
  using pow2_mono [of b a] by (cases "a < b") auto

lemma pow2_of_nat: "pow2 (int n) = 2 ^ n"
  by (simp add: pow2_def)

lemma floorlog_rat_bounds:
  assumes "0 < a"
  shows "pow2 (int (floorlog 2 (nat a)) - 1) \<le> of_int a"
    and "(of_int a :: rat) < pow2 (int (floorlog 2 (nat a)))"
proof -
  define l where "l = floorlog 2 (nat a)"
  have b: "2 ^ (l - 1) \<le> nat a" "nat a < 2 ^ l"
    using floorlog_bounds [of "nat a" 2] assms by (simp_all add: l_def)
  have l0: "0 < l" using assms by (simp add: l_def floorlog_def)
  have "(of_nat (2 ^ (l - 1)) :: rat) \<le> of_nat (nat a)" using b(1) by (simp only: of_nat_le_iff)
  then have "(2::rat) ^ (l - 1) \<le> of_int a" using assms by simp
  moreover have "int l - 1 = int (l - 1)" using l0 by simp
  ultimately show "pow2 (int (floorlog 2 (nat a)) - 1) \<le> of_int a"
    unfolding l_def [symmetric] by (simp only: pow2_of_nat)
  have "(of_nat (nat a) :: rat) < of_nat (2 ^ l)" using b(2) by (simp only: of_nat_less_iff)
  then have "(of_int a :: rat) < 2 ^ l" using assms by simp
  then show "(of_int a :: rat) < pow2 (int (floorlog 2 (nat a)))"
    unfolding l_def [symmetric] by (simp only: pow2_of_nat)
qed

lemma ilog2_bounds:
  assumes "0 < q"
  shows "pow2 (ilog2 q) \<le> q \<and> q < pow2 (ilog2 q + 1)"
proof -
  obtain a b where ab: "quotient_of q = (a, b)" by (cases "quotient_of q")
  then have b: "0 < b" using quotient_of_denom_pos by blast
  have q: "q = of_int a / of_int b" using ab by (simp add: quotient_of_div)
  with assms b have a: "0 < a" by (simp add: zero_less_divide_iff)
  define la where "la = int (floorlog 2 (nat a))"
  define lb where "lb = int (floorlog 2 (nat b))"
  note ra = floorlog_rat_bounds [OF a, folded la_def]
  note rb = floorlog_rat_bounds [OF b, folded lb_def]
  define e where "e = la - lb"
  have bpos: "(0::rat) < of_int b" using b by simp
  have up: "q < pow2 (e + 1)"
  proof -
    have "la = (e + 1) + (lb - 1)" by (simp add: e_def)
    then have "pow2 la = pow2 (e + 1) * pow2 (lb - 1)" by (simp only: pow2_add)
    also have "\<dots> \<le> pow2 (e + 1) * of_int b"
      using rb(1) pow2_pos [of "e + 1"] by (rule_tac mult_left_mono) simp_all
    finally have "of_int a < pow2 (e + 1) * of_int b" using ra(2) by simp
    then show ?thesis using bpos by (simp add: q pos_divide_less_eq)
  qed
  have low: "pow2 (e - 1) \<le> q"
  proof -
    have "la - 1 = (e - 1) + lb" by (simp add: e_def)
    then have "pow2 (la - 1) = pow2 (e - 1) * pow2 lb" by (simp only: pow2_add)
    moreover have "pow2 (e - 1) * of_int b \<le> pow2 (e - 1) * pow2 lb"
      using rb(2) pow2_pos [of "e - 1"] by (rule_tac mult_left_mono) simp_all
    ultimately have "pow2 (e - 1) * of_int b \<le> of_int a" using ra(1) by simp
    then show ?thesis using bpos by (simp add: q pos_le_divide_eq)
  qed
  have il: "ilog2 q = (if pow2 e \<le> q then e else e - 1)"
    by (simp add: ilog2_def ab e_def la_def lb_def Let_def)
  show ?thesis
  proof (cases "pow2 e \<le> q")
    case True
    with il up show ?thesis by simp
  next
    case False
    with il low show ?thesis by simp
  qed
qed

lemma ilog2_unique:
  assumes "0 < q" "pow2 e \<le> q" "q < pow2 (e + 1)"
  shows "ilog2 q = e"
proof -
  from ilog2_bounds [OF assms(1)]
  have b: "pow2 (ilog2 q) \<le> q" "q < pow2 (ilog2 q + 1)" by simp_all
  have "pow2 e < pow2 (ilog2 q + 1)" using assms(2) b(2) by simp
  then have "e < ilog2 q + 1" by (rule pow2_less_cancel)
  moreover have "pow2 (ilog2 q) < pow2 (e + 1)" using assms(3) b(1) by simp
  then have "ilog2 q < e + 1" by (rule pow2_less_cancel)
  ultimately show ?thesis by simp
qed

lemma round_half_even_of_int: "round_half_even (of_int n) = n"
  by (simp add: round_half_even_def)

lemma of_int_less_pow2_53:
  assumes "m < 2 ^ 53"
  shows "(of_int m :: rat) < pow2 53"
proof -
  have "(of_int m :: rat) < of_int (2 ^ 53)" using assms by (simp only: of_int_less_iff)
  then show ?thesis by (simp add: pow2_def)
qed

lemma fl_exact:
  assumes m: "0 < m" "m < 2 ^ 53" and e: "- 1074 \<le> e"
    and q: "q = of_int m * pow2 e" and fin: "q < pow2 1024"
  shows "fl q = Finite q"
proof -
  have qpos: "0 < q" using m pow2_pos [of e] by (simp add: q)
  have "q < pow2 53 * pow2 e"
    unfolding q using of_int_less_pow2_53 [OF m(2)] pow2_pos [of e]
    by (rule_tac mult_strict_right_mono) simp_all
  then have "q < pow2 (53 + e)" by (simp only: pow2_add)
  with ilog2_bounds [OF qpos] have "pow2 (ilog2 q) < pow2 (53 + e)" by simp
  then have "ilog2 q < 53 + e" by (rule pow2_less_cancel)
  then have le: "ilog2 q \<le> 52 + e" by simp
  define ex where "ex = max (ilog2 q) (- 1022) - 52"
  have exe: "ex \<le> e" using le e by (simp add: ex_def)
  define k where "k = nat (e - ex)"
  have ek: "e = int k + ex" using exe by (simp add: k_def)
  have pe: "pow2 e = of_int (2 ^ k) * pow2 ex"
    unfolding ek pow2_add pow2_of_nat by simp
  have "q / pow2 ex = of_int (m * 2 ^ k)"
    using pow2_pos [of ex] by (simp add: q pe)
  then have "round_half_even (q / pow2 ex) = m * 2 ^ k"
    by (simp only: round_half_even_of_int)
  then have "of_int (round_half_even (q / pow2 ex)) * pow2 ex = q"
    by (simp add: q pe)
  then have "round64 q = q" by (simp add: round64_def ex_def Let_def)
  then show ?thesis using qpos fin by (simp add: fl_def Let_def)
qed

lemma fl_of_int:
  assumes "0 \<le> n" "n < 2 ^ 53"
  shows "fl (of_int n) = Finite (of_int n)"
proof (cases "n = 0")
  case True
  then show ?thesis by (simp add: fl_def)
next
  case False
  have "(of_int n :: rat) < pow2 53" by (rule of_int_less_pow2_53 [OF assms(2)])
  also have "pow2 53 \<le> pow2 1024" by (rule pow2_mono) simp
  finally have "(of_int n :: rat) < pow2 1024" .
  with False assms show ?thesis
    by (intro fl_exact [where m = n and e = 0]) (simp_all add: pow2_def)
qed

lemma fl_dyadic:
  assumes "0 < m" "m < 2 ^ 53" "- 1074 \<le> e" "e \<le> 0" "q = of_int m * pow2 e"
  shows "fl q = Finite q"
proof -
  have "pow2 e \<le> pow2 0" using assms(4) by (rule pow2_mono)
  then have "pow2 e \<le> 1" by (simp add: pow2_def)
  then have "of_int m * pow2 e \<le> of_int m * 1"
    using assms(1) by (rule_tac mult_left_mono) simp_all
  also have "(of_int m :: rat) * 1 < pow2 53" using of_int_less_pow2_53 [OF assms(2)] by simp
  also have "pow2 53 \<le> pow2 1024" by (rule pow2_mono) simp
  finally have "q < pow2 1024" by (simp add: assms(5))
  with assms show ?thesis by (intro fl_exact [where m = m and e = e])
qed

section \<open>The duration of a file with 32-bit header fields\<close>

lemma int_to_float_small:
  assumes "0 \<le> n" "n < 2 ^ 53"
  shows "int_to_float n = Inr (of_int n)"
  using fl_of_int [OF assms] by (simp add: int_to_float_def)

lemma fmul_small_1000:
  assumes "0 \<le> n" "n < 2 ^ 32"
  shows "fmul (of_int n) 1000 = Finite (of_int n * 1000)"
proof -
  have "n * 1000 < 2 ^ 53" using assms(2) by simp
  then have "fl (of_int (n * 1000)) = Finite (of_int (n * 1000))"
    using assms(1) by (intro fl_of_int) simp_all
  then show ?thesis by (simp add: fmul_def)
qed

lemma duration_small:
  assumes "0 \<le> frames" "frames < 2 ^ 32" "0 \<le> sr" "sr < 2 ^ 32"
  shows "duration frames sr =
     (if sr = 0 then Inl ZeroDivisionError
      else Inr (fl (of_int frames * 1000 / of_int sr)))"
proof -
  have f: "int_to_float frames = Inr (of_int frames)"
    using assms(1,2) by (intro int_to_float_small) simp_all
  have s: "int_to_float sr = Inr (of_int sr)"
    using assms(3,4) by (intro int_to_float_small) simp_all
  show ?thesis
    by (simp add: duration_def f s fmul_small_1000 [OF assms(1,2)] fdiv_def)
qed

lemma duration_word:
  "duration (uint (frames :: 32 word)) (uint (sr :: 32 word)) =
     (if sr = 0 then Inl ZeroDivisionError
      else Inr (fl (of_int (uint frames) * 1000 / of_int (uint sr))))"
proof -
  have f: "uint frames < 2 ^ 32" using uint_bounded [of frames] by simp
  have s: "uint sr < 2 ^ 32" using uint_bounded [of sr] by simp
  have z: "(uint sr = 0) = (sr = 0)" by (simp add: uint_0_iff)
  show ?thesis
    unfolding duration_small [OF uint_ge_0 f uint_ge_0 s] z ..
qed

lemma contains_prefix: "take (length sub) s = sub \<Longrightarrow> contains sub s"
  by (cases s) auto

lemma contains_append: "contains sub (pre @ sub @ post)"
  by (induction pre) (simp_all add: contains_prefix)

section \<open>The steps of build_manifest\<close>

lemma build_manifest_skip:
  "\<not> is_audio_file audio \<Longrightarrow>
     build_manifest ev m (audio # rest) = build_manifest ev m rest"
  by (auto simp: is_audio_file_def)

lemma build_manifest_warn:
  "is_audio_file audio \<Longrightarrow> m (rel_path_of ev audio) = None \<Longrightarrow>
     build_manifest ev m (audio # rest) =
       (Warning (rel_path_of ev audio) # fst (build_manifest ev m rest),
        snd (build_manifest ev m rest))"
  by (auto simp: is_audio_file_def Let_def split: prod.splits)

lemma build_manifest_fail:
  "is_audio_file audio \<Longrightarrow> m (rel_path_of ev audio) = Some v \<Longrightarrow>
     audio_duration_ms ev audio = Inl e \<Longrightarrow>
     build_manifest ev m (audio # rest) = ([], Some e)"
  by (cases v) (auto simp: is_audio_file_def Let_def)

lemma build_manifest_yield:
  "is_audio_file audio \<Longrightarrow> m (rel_path_of ev audio) = Some (sp, rt) \<Longrightarrow>
     audio_duration_ms ev audio = Inr d \<Longrightarrow>
     build_manifest ev m (audio # rest) =
       (Yield \<lparr>file_path = rel_path_of ev audio, speaker_id = parent_name ev audio,
                duration_ms = d, split = sp, rating = rt\<rparr> # fst (build_manifest ev m rest),
        snd (build_manifest ev m rest))"
  by (auto simp: is_audio_file_def Let_def split: prod.splits)

declare build_manifest.simps(2) [simp del]

lemma build_manifest_cases:
  obtains (skip) "\<not> is_audio_file audio"
  | (warn) "is_audio_file audio" "m (rel_path_of ev audio) = None"
  | (fail) sp rt e where "is_audio_file audio" "m (rel_path_of ev audio) = Some (sp, rt)"
      "audio_duration_ms ev audio = Inl e"
  | (yield) sp rt d where "is_audio_file audio" "m (rel_path_of ev audio) = Some (sp, rt)"
      "audio_duration_ms ev audio = Inr d"
proof (cases "is_audio_file audio")
  case False
  then show ?thesis by (rule skip)
next
  case a: True
  show ?thesis
  proof (cases "m (rel_path_of ev audio)")
    case None
    with a show ?thesis by (rule warn)
  next
    case (Some v)
    obtain sp rt where v: "v = (sp, rt)" by (cases v)
    show ?thesis
    proof (cases "audio_duration_ms ev audio")
      case (Inl e)
      with a Some v show ?thesis by (intro fail) simp_all
    next
      case (Inr d)
      with a Some v show ?thesis by (intro yield) simp_all
    qed
  qed
qed

lemma build_manifest_append:
  "build_manifest ev m (xs @ ys) =
     (case snd (build_manifest ev m xs) of
        None \<Rightarrow> (fst (build_manifest ev m xs) @ fst (build_manifest ev m ys),
                  snd (build_manifest ev m ys))
      | Some e \<Rightarrow> build_manifest ev m xs)"
proof (induction xs)
  case Nil
  show ?case by simp
next
  case (Cons audio xs)
  show ?case
  proof (cases rule: build_manifest_cases [where audio = audio and m = m and ev = ev])
    case skip
    then show ?thesis using Cons.IH
      by (simp add: build_manifest_skip split: option.splits)
  next
    case warn
    then show ?thesis using Cons.IH
      by (simp add: build_manifest_warn split: option.splits)
  next
    case (fail sp rt e)
    then show ?thesis by (simp add: build_manifest_fail)
  next
    case (yield sp rt d)
    then show ?thesis using Cons.IH
      by (simp add: build_manifest_yield split: option.splits)
  qed
qed

lemma build_manifest_filter:
  "build_manifest ev m (filter is_audio_file tree) = build_manifest ev m tree"
proof (induction tree)
  case Nil
  show ?case by simp
next
  case (Cons audio tree)
  show ?case
  proof (cases rule: build_manifest_cases [where audio = audio and m = m and ev = ev])
    case skip
    then show ?thesis using Cons.IH by (simp add: build_manifest_skip)
  next
    case warn
    then show ?thesis using Cons.IH by (simp add: build_manifest_warn)
  next
    case (fail sp rt e)
    then show ?thesis by (simp add: build_manifest_fail)
  next
    case (yield sp rt d)
    then show ?thesis using Cons.IH by (simp add: build_manifest_yield)
  qed
qed

lemma build_manifest_paths:
  "map event_path (fst (build_manifest ev m tree)) =
     map (rel_path_of ev)
       (take (length (fst (build_manifest ev m tree))) (filter is_audio_file tree))"
proof (induction tree)
  case Nil
  show ?case by simp
next
  case (Cons audio tree)
  show ?case
  proof (cases rule: build_manifest_cases [where audio = audio and m = m and ev = ev])
    case skip
    then show ?thesis using Cons.IH by (simp add: build_manifest_skip)
  next
    case warn
    then show ?thesis using Cons.IH by (simp add: build_manifest_warn)
  next
    case (fail sp rt e)
    then show ?thesis by (simp add: build_manifest_fail)
  next
    case (yield sp rt d)
    then show ?thesis using Cons.IH by (simp add: build_manifest_yield)
  qed
qed

lemma build_manifest_complete:
  "snd (build_manifest ev m tree) = None \<Longrightarrow>
     length (fst (build_manifest ev m tree)) = length (filter is_audio_file tree)"
proof (induction tree)
  case Nil
  show ?case by simp
next
  case (Cons audio tree)
  show ?case
  proof (cases rule: build_manifest_cases [where audio = audio and m = m and ev = ev])
    case skip
    then show ?thesis using Cons by (simp add: build_manifest_skip)
  next
    case warn
    then show ?thesis using Cons by (simp add: build_manifest_warn)
  next
    case (fail sp rt e)
    then show ?thesis using Cons.prems by (simp add: build_manifest_fail)
  next
    case (yield sp rt d)
    then show ?thesis using Cons by (simp add: build_manifest_yield)
  qed
qed

lemma build_manifest_record:
  "r \<in> set (records_of (fst (build_manifest ev m tree))) \<Longrightarrow>
     \<exists>audio \<in> set tree. is_audio_file audio
        \<and> file_path r = rel_path_of ev audio
        \<and> speaker_id r = parent_name ev audio
        \<and> m (rel_path_of ev audio) = Some (split r, rating r)
        \<and> audio_duration_ms ev audio = Inr (duration_ms r)"
proof (induction tree)
  case Nil
  then show ?case by simp
next
  case (Cons audio tree)
  show ?case
  proof (cases rule: build_manifest_cases [where audio = audio and m = m and ev = ev])
    case skip
    then show ?thesis using Cons by (simp add: build_manifest_skip)
  next
    case warn
    then show ?thesis using Cons by (simp add: build_manifest_warn)
  next
    case (fail sp rt e)
    then show ?thesis using Cons.prems by (simp add: build_manifest_fail)
  next
    case (yield sp rt d)
    then show ?thesis using Cons by (auto simp: build_manifest_yield)
  qed
qed

lemma build_manifest_first_failure:
  "\<exists>audio \<in> set tree. is_audio_file audio \<and> m (rel_path_of ev audio) \<noteq> None
       \<and> (\<exists>e. audio_duration_ms ev audio = Inl e) \<Longrightarrow>
     \<exists>audio \<in> set tree. is_audio_file audio \<and> m (rel_path_of ev audio) \<noteq> None
       \<and> (\<exists>e. audio_duration_ms ev audio = Inl e
              \<and> snd (build_manifest ev m tree) = Some e)"
proof (induction tree)
  case Nil
  then show ?case by simp
next
  case (Cons audio tree)
  show ?case
  proof (cases rule: build_manifest_cases [where audio = audio and m = m and ev = ev])
    case skip
    then show ?thesis using Cons by (auto simp: build_manifest_skip)
  next
    case warn
    then show ?thesis using Cons by (auto simp: build_manifest_warn)
  next
    case (fail sp rt e)
    then show ?thesis by (auto simp: build_manifest_fail)
  next
    case (yield sp rt d)
    then show ?thesis using Cons by (auto simp: build_manifest_yield)
  qed
qed

section \<open>The lookup as the list of processed rows\<close>

lemma read_rows_map_of:
  "read_rows sn fn rows m = Inr m' \<Longrightarrow> m' = m ++ map_of (rev (row_pairs sn fn rows))"
proof (induction rows arbitrary: m)
  case Nil
  then show ?case by (simp add: row_pairs_def)
next
  case (Cons row rows)
  show ?case
  proof (cases "row = []")
    case True
    with Cons show ?thesis by (simp add: row_pairs_def)
  next
    case False
    show ?thesis
    proof (cases "row_entry sn fn row")
      case (Inl e)
      with False Cons.prems show ?thesis by simp
    next
      case (Inr kv)
      obtain k v where kv: "kv = (k, v)" by (cases kv)
      from False Inr kv Cons.prems have r: "read_rows sn fn rows (m(k \<mapsto> v)) = Inr m'"
        by simp
      have p: "row_pairs sn fn (row # rows) = (k, v) # row_pairs sn fn rows"
        using False Inr kv by (simp add: row_pairs_def)
      have "m' = m(k \<mapsto> v) ++ map_of (rev (row_pairs sn fn rows))"
        by (rule Cons.IH [OF r])
      then show ?thesis unfolding p by (simp add: map_of_append)
    qed
  qed
qed

lemma read_table_map_of:
  "read_table sn tf m = Inr m' \<Longrightarrow> m' = m ++ map_of (rev (table_pairs sn tf))"
  by (auto simp: read_table_def table_pairs_def dest: read_rows_map_of
      split: table_file.splits list.splits if_splits sum.splits)

lemma read_tables_map_of:
  "read_tables names sd m = Inr m' \<Longrightarrow>
     m' = m ++ map_of (rev (concat (map (\<lambda>sn. table_pairs sn (sd sn)) names)))"
proof (induction names arbitrary: m)
  case Nil
  then show ?case by simp
next
  case (Cons sn names)
  from Cons.prems obtain m1 where t: "read_table sn (sd sn) m = Inr m1"
    and r: "read_tables names sd m1 = Inr m'"
    by (auto split: sum.splits)
  have "m1 = m ++ map_of (rev (table_pairs sn (sd sn)))" by (rule read_table_map_of [OF t])
  with Cons.IH [OF r] show ?case by (simp add: map_of_append map_add_assoc)
qed

lemma read_split_tables_map_of:
  "read_split_tables sd = Inr m \<Longrightarrow> m = map_of (rev (processed_rows sd))"
  unfolding read_split_tables_def processed_rows_def
  by (drule read_tables_map_of) simp

lemma map_of_rev_last:
  "k \<notin> fst ` set post \<Longrightarrow> map_of (rev (pre @ (k, v) # post)) k = Some v"
  by (simp add: map_of_append map_add_def map_of_eq_None_iff [THEN iffD2] split: option.splits)

lemma row_pairs_mem:
  "(k, v) \<in> set (row_pairs sn fn rows) \<Longrightarrow>
     \<exists>row \<in> set rows. row \<noteq> [] \<and> row_entry sn fn row = Inr (k, v)"
  by (auto simp: row_pairs_def split: if_splits sum.splits)

lemma row_entry_Inr:
  "row_entry sn fn row = Inr (k, (sp, r)) \<Longrightarrow>
     sp = sn \<and> (\<exists>stimuli mos.
        dict_row fn row ''stimuli'' = Some (Some stimuli)
      \<and> k = replace_char (CHR 0x5C) (CHR ''/'') (strip stimuli)
      \<and> dict_row fn row ''mos'' = Some (Some mos)
      \<and> py_float mos = Inr r)"
  by (auto simp: row_entry_def Let_def split: option.splits sum.splits)

lemma processed_rows_mem:
  "(k, v) \<in> set (processed_rows sd) \<Longrightarrow>
     \<exists>sn \<in> {''train'', ''val'', ''test''}. \<exists>fn rows.
        sd sn = Table (fn # rows) \<and> (k, v) \<in> set (row_pairs sn fn rows)"
  by (auto simp: processed_rows_def table_pairs_def split: table_file.splits list.splits)

lemma read_split_tables_entry:
  assumes "read_split_tables sd = Inr m" "m k = Some (sp, r)"
  shows "sp \<in> {''train'', ''val'', ''test''} \<and>
     (\<exists>fn rows row stimuli mos. sd sp = Table (fn # rows) \<and> row \<in> set rows
        \<and> dict_row fn row ''stimuli'' = Some (Some stimuli)
        \<and> k = replace_char (CHR 0x5C) (CHR ''/'') (strip stimuli)
        \<and> dict_row fn row ''mos'' = Some (Some mos)
        \<and> py_float mos = Inr r)"
proof -
  have m: "m = map_of (rev (processed_rows sd))"
    by (rule read_split_tables_map_of [OF assms(1)])
  have "map_of (rev (processed_rows sd)) k = Some (sp, r)"
    using assms(2) unfolding m .
  then have "(k, (sp, r)) \<in> set (rev (processed_rows sd))" by (rule map_of_SomeD)
  then have "(k, (sp, r)) \<in> set (processed_rows sd)" by simp
  from processed_rows_mem [OF this] obtain sn fn rows
    where sn: "sn \<in> {''train'', ''val'', ''test''}"
      and t: "sd sn = Table (fn # rows)" and p: "(k, (sp, r)) \<in> set (row_pairs sn fn rows)"
    by blast
  from row_pairs_mem [OF p] obtain row
    where row: "row \<in> set rows" and e: "row_entry sn fn row = Inr (k, (sp, r))"
    by blast
  from row_entry_Inr [OF e] obtain stimuli mos where sp: "sp = sn"
    and c: "dict_row fn row ''stimuli'' = Some (Some stimuli)"
      "k = replace_char (CHR 0x5C) (CHR ''/'') (strip stimuli)"
      "dict_row fn row ''mos'' = Some (Some mos)" "py_float mos = Inr r"
    by blast
  have "sd sp = Table (fn # rows)" using t sp by simp
  with row c have "\<exists>fn rows row stimuli mos. sd sp = Table (fn # rows) \<and> row \<in> set rows
        \<and> dict_row fn row ''stimuli'' = Some (Some stimuli)
        \<and> k = replace_char (CHR 0x5C) (CHR ''/'') (strip stimuli)
        \<and> dict_row fn row ''mos'' = Some (Some mos)
        \<and> py_float mos = Inr r"
    by (intro exI conjI)
  moreover have "sp \<in> {''train'', ''val'', ''test''}" using sn sp by simp
  ultimately show ?thesis by (rule_tac conjI)
qed




lemma read_rows_ok:
  "(\<exists>m'. read_rows sn fn rows m = Inr m') \<longleftrightarrow> rows_ok sn fn rows"
proof (induction rows arbitrary: m)
  case Nil
  show ?case by (simp add: rows_ok_def)
next
  case (Cons row rows)
  show ?case
  proof (cases "row = []")
    case True
    with Cons show ?thesis by (simp add: rows_ok_def)
  next
    case False
    show ?thesis
    proof (cases "row_entry sn fn row")
      case (Inl e)
      with False show ?thesis by (simp add: rows_ok_def)
    next
      case (Inr kv)
      obtain k v where kv: "kv = (k, v)" by (cases kv)
      have "rows_ok sn fn (row # rows) = rows_ok sn fn rows"
        using False Inr by (simp add: rows_ok_def)
      moreover have "read_rows sn fn (row # rows) m = read_rows sn fn rows (m(k \<mapsto> v))"
        using False Inr kv by simp
      ultimately show ?thesis using Cons.IH by simp
    qed
  qed
qed

lemma read_table_ok:
  "(\<exists>m'. read_table sn tf m = Inr m') \<longleftrightarrow> table_ok sn tf"
proof (cases tf)
  case Absent
  then show ?thesis by (simp add: read_table_def table_ok_def)
next
  case Unreadable
  then show ?thesis by (simp add: read_table_def table_ok_def)
next
  case (Broken rs failure)
  then show ?thesis
    by (simp add: read_table_def table_ok_def split: list.splits sum.splits)
next
  case (Table rs)
  show ?thesis
  proof (cases rs)
    case Nil
    with Table show ?thesis by (simp add: read_table_def table_ok_def)
  next
    case (Cons fn rows)
    with Table read_rows_ok [of sn fn rows m] show ?thesis
      by (auto simp: read_table_def table_ok_def)
  qed
qed

lemma read_tables_ok:
  "(\<exists>m'. read_tables names sd m = Inr m') \<longleftrightarrow> (\<forall>sn \<in> set names. table_ok sn (sd sn))"
proof (induction names arbitrary: m)
  case Nil
  show ?case by simp
next
  case (Cons sn names)
  show ?case
  proof (cases "read_table sn (sd sn) m")
    case (Inl e)
    with read_table_ok [of sn "sd sn" m] show ?thesis by simp
  next
    case (Inr m1)
    with read_table_ok [of sn "sd sn" m] Cons.IH [of m1] show ?thesis by simp
  qed
qed

lemma read_split_tables_ok:
  "(\<exists>m. read_split_tables sd = Inr m) \<longleftrightarrow>
     table_ok ''train'' (sd ''train'') \<and> table_ok ''val'' (sd ''val'')
     \<and> table_ok ''test'' (sd ''test'')"
  unfolding read_split_tables_def read_tables_ok by simp

section \<open>Evaluation of the example inputs\<close>

lemmas str_eval = suffix_def name_def rfind_def lower_def lower_char_def Let_def
  strip_def isspace_def replace_char_def str_path_def join_def AUDIO_EXTS_def

lemmas float_eval = py_float_def split_sign_def parse_number_def isdigit_def digits_val_def
  float_strip_def float_isspace_def

lemmas table_eval = read_split_tables_def read_table_def row_entry_def dict_row_def

lemma fl_1: "fl 1 = Finite 1"
  using fl_of_int [of 1] by simp

lemma fl_2: "fl 2 = Finite 2"
  using fl_of_int [of 2] by simp

lemma fl_3: "fl 3 = Finite 3"
  using fl_of_int [of 3] by simp

lemma fl_1000: "fl 1000 = Finite 1000"
  using fl_of_int [of 1000] by simp

lemma fl_9_2: "fl (9 / 2) = Finite (9 / 2)"
  by (rule fl_dyadic [where m = 9 and e = "- 1"]) (simp_all add: pow2_def)

lemma fl_15_2: "fl (15 / 2) = Finite (15 / 2)"
  by (rule fl_dyadic [where m = 15 and e = "- 1"]) (simp_all add: pow2_def)

lemma py_float_examples:
  "py_float ''2'' = Inr (Finite 2)"
  "py_float ''3'' = Inr (Finite 3)"
  "py_float ''1e0'' = Inr (Finite 1)"
  "py_float ''4.5'' = Inr (Finite (9 / 2))"
  "py_float ''7.5'' = Inr (Finite (15 / 2))"
  by (simp_all add: float_eval str_eval fl_1 fl_2 fl_3 fl_9_2 fl_15_2)


lemma py_float_strips:
  "py_float (CHR 0xA0 # '' 4.5'' @ [CHR 0x09, CHR 0x85]) = Inr (Finite (9 / 2))"
  by (simp add: float_eval str_eval fl_9_2)

lemma ex_read: "read_split_tables ex_split_dir = Inr ex_split_map"
  by (simp add: table_eval ex_split_dir_def ex_split_map_def py_float_examples str_eval)

lemma ex_read_unrated:
  "read_split_tables ex_unrated_dir = Inr [''a.wav'' \<mapsto> (''train'', Finite (15 / 2))]"
  by (simp add: table_eval ex_unrated_dir_def py_float_examples str_eval)


lemma ex_processed:
  "processed_rows ex_split_dir =
     [(''spk1/a.WAV'', (''train'', Finite 2)),
      (''spk1/a.WAV'', (''train'', Finite (9 / 2))),
      (''spk2/c.flac'', (''test'', Finite 3)),
      (''spk2/d.wav'', (''test'', Finite 1))]"
  by (simp add: processed_rows_def table_pairs_def row_pairs_def row_entry_def dict_row_def
      ex_split_dir_def py_float_examples str_eval)

lemma ex_audio:
  "is_audio_file ex_a" "\<not> is_audio_file ex_notes" "is_audio_file ex_b"
  "is_audio_file ex_c" "is_audio_file ex_d"
  by (simp_all add: is_audio_file_def ex_a_def ex_notes_def ex_b_def ex_c_def ex_d_def str_eval)

lemma ex_suffix:
  "lower (suffix (comps ex_a)) = ''.wav''" "lower (suffix (comps ex_b)) = ''.wav''"
  "lower (suffix (comps ex_c)) = ''.flac''" "lower (suffix (comps ex_d)) = ''.wav''"
  by (simp_all add: ex_a_def ex_b_def ex_c_def ex_d_def str_eval)

lemma ex_suffix_c: "suffix (comps ex_c) = ''.flac''"
  by (simp add: ex_c_def str_eval)

lemma ex_rel_path:
  "rel_path_of ex_env ex_a = ''spk1/a.WAV''" "rel_path_of ex_env ex_b = ''spk2/b.wav''"
  "rel_path_of ex_env ex_c = ''spk2/c.flac''" "rel_path_of ex_env ex_d = ''spk2/d.wav''"
  by (simp_all add: rel_path_of_def ex_env_def ex_a_def ex_b_def ex_c_def ex_d_def str_eval)

lemma ex_lookup:
  "ex_split_map ''spk1/a.WAV'' = Some (''train'', Finite (9 / 2))"
  "ex_split_map ''spk2/b.wav'' = None"
  "ex_split_map ''spk2/c.flac'' = Some (''test'', Finite 3)"
  "ex_split_map ''spk2/d.wav'' = Some (''test'', Finite 1)"
  by (simp_all add: ex_split_map_def)

lemma ex_duration_a: "audio_duration_ms ex_env ex_a = Inr (Finite 1000)"
proof -
  have "wave_header ex_a = Some (16000, 16000)" by (simp add: ex_a_def)
  then show ?thesis
    by (simp add: audio_duration_ms_def ex_suffix duration_word fl_1000)
qed

lemma ex_duration_c:
  "audio_duration_ms ex_env ex_c = Inl (RuntimeError (soundfile_message ''.flac''))"
  by (simp add: audio_duration_ms_def ex_suffix ex_env_def) (simp add: ex_suffix_c)

lemma ex_duration_d: "audio_duration_ms ex_env ex_d = Inl ZeroDivisionError"
proof -
  have "wave_header ex_d = Some (100, 0)" by (simp add: ex_d_def)
  then show ?thesis
    by (simp add: audio_duration_ms_def ex_suffix duration_word)
qed

lemma ex_parent: "parent_name ex_env ex_a = ''spk1''"
  by (simp add: parent_name_def ex_a_def name_def)

lemma ex_build_ab:
  "build_manifest ex_env ex_split_map [ex_a, ex_notes, ex_b] =
     ([Yield ex_record_a, Warning ''spk2/b.wav''], None)"
  by (simp add: build_manifest_yield [OF ex_audio(1) _ ex_duration_a]
      build_manifest_skip [OF ex_audio(2)] build_manifest_warn [OF ex_audio(3)]
      ex_rel_path ex_lookup ex_parent ex_record_a_def)

section \<open>The properties\<close>

text \<open>
  C1, as amended. \<open>read_split_tables\<close> checks no range. Every entry of the lookup it
  returns has one of the three split names, and its rating is the float that \<open>float()\<close>
  returns for the \<open>mos\<close> cell of a data row of the table of that name, whose normalized
  \<open>stimuli\<close> cell is the key of the entry; so the rating lies between 1.0 and 5.0 exactly
  when that cell's value does. Every record that \<open>build_manifest\<close> emits carries the split
  and the rating stored in the lookup under its \<open>file_path\<close>.
\<close>

theorem split_lookup_ratings:
  assumes "read_split_tables split_dir = Inr split_map"
  shows "(split_map k = Some (sp, rt) \<longrightarrow>
            sp \<in> {''train'', ''val'', ''test''} \<and>
            (\<exists>fieldnames rows row stimuli mos.
               split_dir sp = Table (fieldnames # rows) \<and> row \<in> set rows
             \<and> dict_row fieldnames row ''stimuli'' = Some (Some stimuli)
             \<and> k = replace_char (CHR 0x5C) (CHR ''/'') (strip stimuli)
             \<and> dict_row fieldnames row ''mos'' = Some (Some mos)
             \<and> py_float mos = Inr rt))
       \<and> (r \<in> set (records_of (fst (build_manifest ev split_map tree))) \<longrightarrow>
            split_map (file_path r) = Some (split r, rating r))"
proof (intro conjI impI)
  assume k: "split_map k = Some (sp, rt)"
  from read_split_tables_entry [OF assms k]
  show "sp \<in> {''train'', ''val'', ''test''}" by (rule conjunct1)
  from read_split_tables_entry [OF assms k]
  show "\<exists>fieldnames rows row stimuli mos.
               split_dir sp = Table (fieldnames # rows) \<and> row \<in> set rows
             \<and> dict_row fieldnames row ''stimuli'' = Some (Some stimuli)
             \<and> k = replace_char (CHR 0x5C) (CHR ''/'') (strip stimuli)
             \<and> dict_row fieldnames row ''mos'' = Some (Some mos)
             \<and> py_float mos = Inr rt" by (rule conjunct2)
next
  assume "r \<in> set (records_of (fst (build_manifest ev split_map tree)))"
  from build_manifest_record [OF this]
  show "split_map (file_path r) = Some (split r, rating r)" by auto
qed

text \<open>
  On the example directory the entry of \<open>spk1/a.WAV\<close> comes from a row of the train
  table with the cell \<open>4.5\<close>, and the record emitted for the file carries that rating.
\<close>

theorem split_lookup_ratings_witness:
  "read_split_tables ex_split_dir = Inr ex_split_map
   \<and> ex_split_map ''spk1/a.WAV'' = Some (''train'', Finite (9 / 2))
   \<and> (\<exists>fieldnames rows row stimuli mos.
         ex_split_dir ''train'' = Table (fieldnames # rows) \<and> row \<in> set rows
       \<and> dict_row fieldnames row ''stimuli'' = Some (Some stimuli)
       \<and> ''spk1/a.WAV'' = replace_char (CHR 0x5C) (CHR ''/'') (strip stimuli)
       \<and> dict_row fieldnames row ''mos'' = Some (Some mos)
       \<and> py_float mos = Inr (Finite (9 / 2)))
   \<and> ex_record_a \<in> set (records_of (fst (build_manifest ex_env ex_split_map [ex_a, ex_notes, ex_b])))
   \<and> ex_split_map (file_path ex_record_a) = Some (split ex_record_a, rating ex_record_a)"
  using split_lookup_ratings [OF ex_read, where k = "''spk1/a.WAV''" and sp = "''train''"
      and rt = "Finite (9 / 2)" and r = ex_record_a and ev = ex_env
      and tree = "[ex_a, ex_notes, ex_b]"]
  by (simp add: ex_read ex_lookup ex_build_ab)

text \<open>
  C1 as stated fails: a train table with the row \<open>a.wav,7.5\<close> is accepted, and the
  rating stored for \<open>a.wav\<close> is 7.5, which is not between 1.0 and 5.0.
\<close>

theorem rating_range_counterexample:
  "read_split_tables ex_unrated_dir = Inr [''a.wav'' \<mapsto> (''train'', Finite (15 / 2))]
   \<and> \<not> float_between 1 5 (Finite (15 / 2))"
  by (simp add: ex_read_unrated float_between_def)




text \<open>
  C3. Every record that \<open>build_manifest\<close> emits has a \<open>file_path\<close> that is a key of the
  lookup it was given. An audio file whose normalized relative path is not a key
  contributes one warning that names the path and no record, and the generator goes on
  with the entries after it: its events are those of the entries before, the warning,
  and those of the entries after, and it ends as the run over the entries after ends.
\<close>

theorem unmatched_file_skipped:
  "(\<forall>r \<in> set (records_of (fst (build_manifest ev split_map tree))).
       file_path r \<in> dom split_map)
   \<and> (is_audio_file audio \<and> split_map (rel_path_of ev audio) = None
        \<and> snd (build_manifest ev split_map before) = None \<longrightarrow>
        build_manifest ev split_map (before @ audio # rest) =
          (fst (build_manifest ev split_map before) @ Warning (rel_path_of ev audio)
             # fst (build_manifest ev split_map rest),
           snd (build_manifest ev split_map rest)))"
proof (intro conjI ballI impI)
  fix r
  assume "r \<in> set (records_of (fst (build_manifest ev split_map tree)))"
  from build_manifest_record [OF this] show "file_path r \<in> dom split_map" by auto
next
  assume a: "is_audio_file audio \<and> split_map (rel_path_of ev audio) = None
        \<and> snd (build_manifest ev split_map before) = None"
  then have "build_manifest ev split_map (audio # rest) =
       (Warning (rel_path_of ev audio) # fst (build_manifest ev split_map rest),
        snd (build_manifest ev split_map rest))"
    by (simp add: build_manifest_warn)
  with a show "build_manifest ev split_map (before @ audio # rest) =
          (fst (build_manifest ev split_map before) @ Warning (rel_path_of ev audio)
             # fst (build_manifest ev split_map rest),
           snd (build_manifest ev split_map rest))"
    by (simp add: build_manifest_append)
qed

text \<open>
  In the example tree \<open>spk2/b.wav\<close> is in no table: the run over the tree yields the
  record of \<open>spk1/a.WAV\<close>, then the warning, and ends normally.
\<close>

theorem unmatched_file_skipped_witness:
  "ex_record_a \<in> set (records_of (fst (build_manifest ex_env ex_split_map [ex_a, ex_notes, ex_b])))
   \<and> file_path ex_record_a \<in> dom ex_split_map
   \<and> is_audio_file ex_b \<and> ex_split_map (rel_path_of ex_env ex_b) = None
   \<and> snd (build_manifest ex_env ex_split_map [ex_a, ex_notes]) = None
   \<and> build_manifest ex_env ex_split_map ([ex_a, ex_notes] @ ex_b # []) =
        ([Yield ex_record_a, Warning ''spk2/b.wav''], None)"
proof -
  have b: "build_manifest ex_env ex_split_map [ex_a, ex_notes] = ([Yield ex_record_a], None)"
    by (simp add: build_manifest_yield [OF ex_audio(1) _ ex_duration_a]
        build_manifest_skip [OF ex_audio(2)] ex_rel_path ex_lookup ex_parent ex_record_a_def)
  have r: "ex_record_a \<in> set (records_of (fst (build_manifest ex_env ex_split_map [ex_a, ex_notes, ex_b])))"
    by (simp add: ex_build_ab)
  show ?thesis
    using unmatched_file_skipped [where ev = ex_env and split_map = ex_split_map
        and tree = "[ex_a, ex_notes, ex_b]" and audio = ex_b and before = "[ex_a, ex_notes]"
        and rest = "[]"] r
    by (simp add: b ex_audio ex_rel_path ex_lookup ex_build_ab)
qed

text \<open>
  C4. \<open>read_split_tables\<close> returns normally exactly when each of the three tables is
  present with the two columns and each of its non-empty rows is read without an
  exception, a condition on every row taken alone: no row is compared with another. The
  lookup it returns is the list of the processed rows (the rows of train, then val, then
  test) read with the last occurrence of a key winning: when two rows have the same key
  and no later row has it, the pair stored under the key is that of the later row.
\<close>

theorem last_row_wins:
  "((\<exists>m. read_split_tables split_dir = Inr m) \<longleftrightarrow>
      table_ok ''train'' (split_dir ''train'') \<and> table_ok ''val'' (split_dir ''val'')
      \<and> table_ok ''test'' (split_dir ''test''))
   \<and> (read_split_tables split_dir = Inr split_map
        \<and> processed_rows split_dir = before @ (k, v1) # between @ (k, v2) # rest
        \<and> k \<notin> fst ` set rest \<longrightarrow>
        split_map = map_of (rev (processed_rows split_dir)) \<and> split_map k = Some v2)"
proof (intro conjI impI)
  show "(\<exists>m. read_split_tables split_dir = Inr m) \<longleftrightarrow>
      table_ok ''train'' (split_dir ''train'') \<and> table_ok ''val'' (split_dir ''val'')
      \<and> table_ok ''test'' (split_dir ''test'')"
    by (rule read_split_tables_ok)
next
  assume a: "read_split_tables split_dir = Inr split_map
        \<and> processed_rows split_dir = before @ (k, v1) # between @ (k, v2) # rest
        \<and> k \<notin> fst ` set rest"
  then have r: "read_split_tables split_dir = Inr split_map" by (rule conjunct1)
  show m: "split_map = map_of (rev (processed_rows split_dir))"
    by (rule read_split_tables_map_of [OF r])
  from a have "processed_rows split_dir = (before @ (k, v1) # between) @ (k, v2) # rest"
    by simp
  moreover from a have "k \<notin> fst ` set rest" by simp
  ultimately have "map_of (rev (processed_rows split_dir)) k = Some v2"
    using map_of_rev_last by (simp only:)
  with m show "split_map k = Some v2" by simp
qed

text \<open>
  The train table of the example holds \<open>spk1/a.WAV\<close> with the rating 2 and then, written
  with a backslash and spaces around it, with the rating 4.5: the lookup holds 4.5.
\<close>

theorem last_row_wins_witness:
  "table_ok ''train'' (ex_split_dir ''train'') \<and> table_ok ''val'' (ex_split_dir ''val'')
   \<and> table_ok ''test'' (ex_split_dir ''test'')
   \<and> read_split_tables ex_split_dir = Inr ex_split_map
   \<and> processed_rows ex_split_dir =
       [] @ (''spk1/a.WAV'', (''train'', Finite 2)) # []
          @ (''spk1/a.WAV'', (''train'', Finite (9 / 2)))
          # [(''spk2/c.flac'', (''test'', Finite 3)), (''spk2/d.wav'', (''test'', Finite 1))]
   \<and> ''spk1/a.WAV'' \<notin> fst ` set [(''spk2/c.flac'', (''test'', Finite 3)),
                                    (''spk2/d.wav'', (''test'', Finite (1::rat)))]
   \<and> ex_split_map ''spk1/a.WAV'' = Some (''train'', Finite (9 / 2))"
proof -
  note t = last_row_wins [where split_dir = ex_split_dir and split_map = ex_split_map
      and before = "[]" and k = "''spk1/a.WAV''" and ?v1.0 = "(''train'', Finite 2)"
      and between = "[]" and ?v2.0 = "(''train'', Finite (9 / 2))"
      and rest = "[(''spk2/c.flac'', (''test'', Finite 3)), (''spk2/d.wav'', (''test'', Finite 1))]"]
  have p: "processed_rows ex_split_dir =
       [] @ (''spk1/a.WAV'', (''train'', Finite 2)) # []
          @ (''spk1/a.WAV'', (''train'', Finite (9 / 2)))
          # [(''spk2/c.flac'', (''test'', Finite 3)), (''spk2/d.wav'', (''test'', Finite 1))]"
    by (simp add: ex_processed)
  have n: "''spk1/a.WAV'' \<notin> fst ` set [(''spk2/c.flac'', (''test'', Finite 3)),
                                    (''spk2/d.wav'', (''test'', Finite (1::rat)))]"
    by simp
  have ok: "table_ok ''train'' (ex_split_dir ''train'') \<and> table_ok ''val'' (ex_split_dir ''val'')
      \<and> table_ok ''test'' (ex_split_dir ''test'')"
    using t [THEN conjunct1] ex_read by blast
  have "ex_split_map ''spk1/a.WAV'' = Some (''train'', Finite (9 / 2))"
    using t [THEN conjunct2] ex_read p n by blast
  with ok ex_read p n show ?thesis by (intro conjI) simp_all
qed

text \<open>
  C5. For a path whose suffix is \<open>.wav\<close> in any case, with a header that reports
  \<open>frames\<close> frames at the nonzero rate \<open>sr\<close>, \<open>audio_duration_ms\<close> returns the float
  quotient of \<open>frames * 1000\<close> by \<open>sr\<close>, that is the exact quotient rounded to binary64;
  for 16000 frames at 16000 Hz it returns exactly 1000.0.
\<close>

theorem wav_duration:
  assumes "lower (suffix (comps path)) = ''.wav''"
    and "wave_header path = Some (frames, sr)"
    and "sr \<noteq> 0"
  shows "audio_duration_ms ev path
           = Inr (fl (of_int (uint frames) * 1000 / of_int (uint sr)))
       \<and> (frames = 16000 \<and> sr = 16000 \<longrightarrow>
            audio_duration_ms ev path = Inr (Finite 1000))"
proof -
  have d: "audio_duration_ms ev path
           = Inr (fl (of_int (uint frames) * 1000 / of_int (uint sr)))"
    using assms by (simp only: audio_duration_ms_def duration_word) simp
  have "frames = 16000 \<and> sr = 16000 \<longrightarrow> audio_duration_ms ev path = Inr (Finite 1000)"
    unfolding d by (auto simp: fl_1000)
  with d show ?thesis by (rule conjI)
qed

text \<open>
  The file \<open>a.WAV\<close> of the example, one second at 16000 Hz, has the duration 1000.0.
\<close>

theorem wav_duration_witness:
  "lower (suffix (comps ex_a)) = ''.wav'' \<and> wave_header ex_a = Some (16000, 16000)
   \<and> (16000 :: 32 word) \<noteq> 0
   \<and> audio_duration_ms ex_env ex_a = Inr (Finite 1000)"
proof -
  have h: "wave_header ex_a = Some (16000, 16000)" by (simp add: ex_a_def)
  have z: "(16000 :: 32 word) \<noteq> 0" by simp
  have "audio_duration_ms ex_env ex_a = Inr (Finite 1000)"
    using wav_duration [OF ex_suffix(1) h z, of ex_env, THEN conjunct2] by simp
  with h z ex_suffix(1) show ?thesis by (intro conjI)
qed

text \<open>
  C6. \<open>build_manifest\<close> passes over every entry that is not a regular file whose suffix,
  in lower case, is one of \<open>.wav\<close>, \<open>.flac\<close>, \<open>.mp3\<close>, \<open>.m4a\<close>, \<open>.ogg\<close>: its result on a
  tree is its result on the audio files of the tree alone, the events it produces are
  about the first audio files of the tree in their order, and a run that ends normally
  produces exactly one event for each audio file.
\<close>

theorem audio_extensions_only:
  "(is_audio_file audio \<longleftrightarrow>
      is_file audio
      \<and> lower (suffix (comps audio)) \<in> {''.wav'', ''.flac'', ''.mp3'', ''.m4a'', ''.ogg''})
   \<and> build_manifest ev split_map tree = build_manifest ev split_map (filter is_audio_file tree)
   \<and> map event_path (fst (build_manifest ev split_map tree)) =
       map (rel_path_of ev)
         (take (length (fst (build_manifest ev split_map tree))) (filter is_audio_file tree))
   \<and> (snd (build_manifest ev split_map tree) = None \<longrightarrow>
        length (fst (build_manifest ev split_map tree)) = length (filter is_audio_file tree))"
proof (intro conjI impI)
  show "is_audio_file audio \<longleftrightarrow>
      is_file audio
      \<and> lower (suffix (comps audio)) \<in> {''.wav'', ''.flac'', ''.mp3'', ''.m4a'', ''.ogg''}"
    unfolding is_audio_file_def AUDIO_EXTS_def by (rule conj_commute)
  show "build_manifest ev split_map tree = build_manifest ev split_map (filter is_audio_file tree)"
    by (rule build_manifest_filter [symmetric])
  show "map event_path (fst (build_manifest ev split_map tree)) =
       map (rel_path_of ev)
         (take (length (fst (build_manifest ev split_map tree))) (filter is_audio_file tree))"
    by (rule build_manifest_paths)
next
  assume "snd (build_manifest ev split_map tree) = None"
  then show "length (fst (build_manifest ev split_map tree)) = length (filter is_audio_file tree)"
    by (rule build_manifest_complete)
qed

text \<open>
  In the example tree \<open>notes.txt\<close> is a regular file with another suffix; the run over
  the tree is the run over the two audio files, and it produces two events.
\<close>

theorem audio_extensions_only_witness:
  "is_audio_file ex_a \<and> \<not> is_audio_file ex_notes
   \<and> lower (suffix (comps ex_notes)) \<notin> {''.wav'', ''.flac'', ''.mp3'', ''.m4a'', ''.ogg''}
   \<and> filter is_audio_file [ex_a, ex_notes, ex_b] = [ex_a, ex_b]
   \<and> build_manifest ex_env ex_split_map [ex_a, ex_notes, ex_b]
       = build_manifest ex_env ex_split_map [ex_a, ex_b]
   \<and> snd (build_manifest ex_env ex_split_map [ex_a, ex_notes, ex_b]) = None
   \<and> length (fst (build_manifest ex_env ex_split_map [ex_a, ex_notes, ex_b])) = 2"
proof -
  note t = audio_extensions_only [of ex_notes ex_env ex_split_map "[ex_a, ex_notes, ex_b]"]
  have f: "filter is_audio_file [ex_a, ex_notes, ex_b] = [ex_a, ex_b]"
    by (simp add: ex_audio)
  have n: "is_file ex_notes" by (simp add: ex_notes_def)
  have s: "snd (build_manifest ex_env ex_split_map [ex_a, ex_notes, ex_b]) = None"
    by (simp add: ex_build_ab)
  have c1: "lower (suffix (comps ex_notes)) \<notin> {''.wav'', ''.flac'', ''.mp3'', ''.m4a'', ''.ogg''}"
    using t [THEN conjunct1] n ex_audio(2) by blast
  have c2: "build_manifest ex_env ex_split_map [ex_a, ex_notes, ex_b]
       = build_manifest ex_env ex_split_map [ex_a, ex_b]"
    using t [THEN conjunct2, THEN conjunct1] unfolding f .
  have c3: "length (fst (build_manifest ex_env ex_split_map [ex_a, ex_notes, ex_b])) = 2"
    using t [THEN conjunct2, THEN conjunct2, THEN conjunct2] s unfolding f by simp
  from ex_audio(1) ex_audio(2) c1 f c2 s c3 show ?thesis by (intro conjI)
qed

text \<open>
  C7. Every record emitted comes from an audio file \<open>F\<close> of the tree, and its \<open>file_path\<close>
  is the string of the path of \<open>F\<close> relative to the root with every backslash replaced
  by a forward slash; conversely a matched audio file whose duration is read yields, at
  its place in the run, the record with that \<open>file_path\<close>.
\<close>

theorem record_file_path:
  "(r \<in> set (records_of (fst (build_manifest ev split_map tree))) \<longrightarrow>
      (\<exists>F \<in> set tree. is_audio_file F
         \<and> audio_duration_ms ev F = Inr (duration_ms r)
         \<and> speaker_id r = parent_name ev F
         \<and> file_path r = replace_char (CHR 0x5C) (CHR ''/'') (str_path (sep ev) (comps F))))
   \<and> (is_audio_file F \<and> split_map (rel_path_of ev F) = Some (sp, rt)
        \<and> audio_duration_ms ev F = Inr d
        \<and> snd (build_manifest ev split_map before) = None \<longrightarrow>
        build_manifest ev split_map (before @ F # rest) =
          (fst (build_manifest ev split_map before)
             @ Yield \<lparr>file_path = replace_char (CHR 0x5C) (CHR ''/'')
                                     (str_path (sep ev) (comps F)),
                       speaker_id = parent_name ev F, duration_ms = d,
                       split = sp, rating = rt\<rparr>
             # fst (build_manifest ev split_map rest),
           snd (build_manifest ev split_map rest)))"
proof (intro conjI impI)
  assume "r \<in> set (records_of (fst (build_manifest ev split_map tree)))"
  from build_manifest_record [OF this]
  show "\<exists>F \<in> set tree. is_audio_file F
         \<and> audio_duration_ms ev F = Inr (duration_ms r)
         \<and> speaker_id r = parent_name ev F
         \<and> file_path r = replace_char (CHR 0x5C) (CHR ''/'') (str_path (sep ev) (comps F))"
    unfolding rel_path_of_def by blast
next
  assume a: "is_audio_file F \<and> split_map (rel_path_of ev F) = Some (sp, rt)
        \<and> audio_duration_ms ev F = Inr d
        \<and> snd (build_manifest ev split_map before) = None"
  then have "build_manifest ev split_map (F # rest) =
       (Yield \<lparr>file_path = rel_path_of ev F, speaker_id = parent_name ev F,
                duration_ms = d, split = sp, rating = rt\<rparr>
          # fst (build_manifest ev split_map rest),
        snd (build_manifest ev split_map rest))"
    by (simp add: build_manifest_yield)
  with a show "build_manifest ev split_map (before @ F # rest) =
          (fst (build_manifest ev split_map before)
             @ Yield \<lparr>file_path = replace_char (CHR 0x5C) (CHR ''/'')
                                     (str_path (sep ev) (comps F)),
                       speaker_id = parent_name ev F, duration_ms = d,
                       split = sp, rating = rt\<rparr>
             # fst (build_manifest ev split_map rest),
           snd (build_manifest ev split_map rest))"
    by (simp add: build_manifest_append rel_path_of_def)
qed

text \<open>
  With the backslash as path separator the relative path of \<open>a.WAV\<close> is written with
  a backslash after \<open>spk1\<close>, and the record emitted for it has the \<open>file_path\<close>
  \<open>spk1/a.WAV\<close>.
\<close>

theorem record_file_path_witness:
  "ex_record_a \<in> set (records_of (fst (build_manifest ex_env ex_split_map [ex_a, ex_notes, ex_b])))
   \<and> str_path (sep ex_env) (comps ex_a) = ''spk1'' @ [CHR 0x5C] @ ''a.WAV''
   \<and> file_path ex_record_a = ''spk1/a.WAV''
   \<and> (\<exists>F \<in> set [ex_a, ex_notes, ex_b]. is_audio_file F
         \<and> audio_duration_ms ex_env F = Inr (duration_ms ex_record_a)
         \<and> speaker_id ex_record_a = parent_name ex_env F
         \<and> file_path ex_record_a
             = replace_char (CHR 0x5C) (CHR ''/'') (str_path (sep ex_env) (comps F)))
   \<and> is_audio_file ex_a
   \<and> ex_split_map (rel_path_of ex_env ex_a) = Some (''train'', Finite (9 / 2))
   \<and> audio_duration_ms ex_env ex_a = Inr (Finite 1000)
   \<and> snd (build_manifest ex_env ex_split_map []) = None
   \<and> build_manifest ex_env ex_split_map ([] @ ex_a # [ex_notes, ex_b]) =
        ([Yield \<lparr>file_path = ''spk1/a.WAV'', speaker_id = ''spk1'',
                  duration_ms = Finite 1000, split = ''train'', rating = Finite (9 / 2)\<rparr>,
          Warning ''spk2/b.wav''], None)"
proof -
  have r: "ex_record_a \<in> set (records_of (fst (build_manifest ex_env ex_split_map [ex_a, ex_notes, ex_b])))"
    by (simp add: ex_build_ab)
  have s: "str_path (sep ex_env) (comps ex_a) = ''spk1'' @ [CHR 0x5C] @ ''a.WAV''"
    by (simp add: ex_env_def ex_a_def str_path_def join_def)
  have b: "build_manifest ex_env ex_split_map [ex_notes, ex_b] = ([Warning ''spk2/b.wav''], None)"
    by (simp add: build_manifest_skip [OF ex_audio(2)] build_manifest_warn [OF ex_audio(3)]
        ex_rel_path ex_lookup)
  have p: "replace_char (CHR 0x5C) (CHR ''/'') (str_path (sep ex_env) (comps ex_a)) = ''spk1/a.WAV''"
    using ex_rel_path(1) by (simp add: rel_path_of_def)
  from record_file_path [where r = ex_record_a and ev = ex_env and split_map = ex_split_map
      and tree = "[ex_a, ex_notes, ex_b]" and F = ex_a and sp = "''train''"
      and rt = "Finite (9 / 2)" and d = "Finite 1000" and before = "[]"
      and rest = "[ex_notes, ex_b]"] r
  show ?thesis
    by (simp add: s p b ex_audio ex_rel_path ex_lookup ex_duration_a ex_parent)
      (simp add: ex_record_a_def)
qed

text \<open>
  C8. When \<open>audio_duration_ms\<close> raises for a matched audio file and the entries before
  it were processed without an exception, \<open>build_manifest\<close> ends with that exception
  after the events of the entries before, whatever comes after the file; \<open>main\<close> ends with
  the same exception, the output holds the records emitted before the file only, and no
  count is printed. In any tree with a matched audio file whose probe raises, the run
  ends with the exception of such a file.
\<close>

theorem probe_failure_aborts:
  "(is_audio_file audio \<and> split_map (rel_path_of ev audio) = Some v
      \<and> audio_duration_ms ev audio = Inl e
      \<and> snd (build_manifest ev split_map before) = None \<longrightarrow>
      build_manifest ev split_map (before @ audio # rest)
        = (fst (build_manifest ev split_map before), Some e)
      \<and> (read_split_tables split_dir = Inr split_map \<and> out_writable ev \<longrightarrow>
           main ev split_dir (before @ audio # rest) out
             = (Manifest (records_of (fst (build_manifest ev split_map before))),
                warnings_of (fst (build_manifest ev split_map before)), Some e)))
   \<and> ((\<exists>a \<in> set tree. is_audio_file a \<and> split_map (rel_path_of ev a) \<noteq> None
           \<and> (\<exists>e'. audio_duration_ms ev a = Inl e')) \<longrightarrow>
        (\<exists>a \<in> set tree. is_audio_file a \<and> split_map (rel_path_of ev a) \<noteq> None
           \<and> (\<exists>e'. audio_duration_ms ev a = Inl e'
                  \<and> snd (build_manifest ev split_map tree) = Some e')))"
proof (intro conjI impI)
  assume a: "is_audio_file audio \<and> split_map (rel_path_of ev audio) = Some v
      \<and> audio_duration_ms ev audio = Inl e
      \<and> snd (build_manifest ev split_map before) = None"
  then have "build_manifest ev split_map (audio # rest) = ([], Some e)"
    by (simp add: build_manifest_fail)
  with a show b: "build_manifest ev split_map (before @ audio # rest)
        = (fst (build_manifest ev split_map before), Some e)"
    by (simp add: build_manifest_append)
  assume "read_split_tables split_dir = Inr split_map \<and> out_writable ev"
  then show "main ev split_dir (before @ audio # rest) out
             = (Manifest (records_of (fst (build_manifest ev split_map before))),
                warnings_of (fst (build_manifest ev split_map before)), Some e)"
    by (simp add: main_def b)
next
  assume "\<exists>a \<in> set tree. is_audio_file a \<and> split_map (rel_path_of ev a) \<noteq> None
           \<and> (\<exists>e'. audio_duration_ms ev a = Inl e')"
  then show "\<exists>a \<in> set tree. is_audio_file a \<and> split_map (rel_path_of ev a) \<noteq> None
           \<and> (\<exists>e'. audio_duration_ms ev a = Inl e'
                  \<and> snd (build_manifest ev split_map tree) = Some e')"
    by (rule build_manifest_first_failure)
qed

text \<open>
  In the example \<open>spk2/d.wav\<close> reports the sample rate zero: the run over a tree with a
  good file after it ends with \<open>ZeroDivisionError\<close>, and the output holds the one record
  emitted before.
\<close>

theorem probe_failure_aborts_witness:
  "is_audio_file ex_d \<and> ex_split_map (rel_path_of ex_env ex_d) = Some (''test'', Finite 1)
   \<and> audio_duration_ms ex_env ex_d = Inl ZeroDivisionError
   \<and> build_manifest ex_env ex_split_map [ex_a, ex_notes, ex_b]
       = ([Yield ex_record_a, Warning ''spk2/b.wav''], None)
   \<and> build_manifest ex_env ex_split_map ([ex_a, ex_notes, ex_b] @ ex_d # [ex_a])
       = ([Yield ex_record_a, Warning ''spk2/b.wav''], Some ZeroDivisionError)
   \<and> read_split_tables ex_split_dir = Inr ex_split_map \<and> out_writable ex_env
   \<and> main ex_env ex_split_dir ([ex_a, ex_notes, ex_b] @ ex_d # [ex_a]) (Previous ''old'')
       = (Manifest [ex_record_a], [Skipped ''spk2/b.wav''], Some ZeroDivisionError)"
proof -
  have w: "out_writable ex_env" by (simp add: ex_env_def)
  note t = probe_failure_aborts [where audio = ex_d and split_map = ex_split_map
      and ev = ex_env and v = "(''test'', Finite 1)" and e = ZeroDivisionError
      and before = "[ex_a, ex_notes, ex_b]" and rest = "[ex_a]" and split_dir = ex_split_dir
      and out = "Previous ''old''", THEN conjunct1]
  have h: "is_audio_file ex_d \<and> ex_split_map (rel_path_of ex_env ex_d) = Some (''test'', Finite 1)
      \<and> audio_duration_ms ex_env ex_d = Inl ZeroDivisionError
      \<and> snd (build_manifest ex_env ex_split_map [ex_a, ex_notes, ex_b]) = None"
    by (simp add: ex_audio ex_rel_path ex_lookup ex_duration_d ex_build_ab)
  from t h ex_read w show ?thesis
    by (simp add: ex_build_ab)
qed

text \<open>
  C9. For a path whose suffix is not \<open>.wav\<close>, when \<open>soundfile\<close> cannot be imported,
  \<open>audio_duration_ms\<close> raises the \<open>RuntimeError\<close> whose message names the suffix and
  \<open>soundfile\<close> and proposes to install it or to convert the file to WAV.
\<close>

theorem soundfile_missing:
  assumes "lower (suffix (comps path)) \<noteq> ''.wav''"
    and "\<not> soundfile_available ev"
  shows "audio_duration_ms ev path
           = Inl (RuntimeError (''Cannot read '' @ suffix (comps path)
                    @ ''; install `pip install soundfile` or convert to WAV.''))
       \<and> (\<forall>msg. audio_duration_ms ev path = Inl (RuntimeError msg) \<longrightarrow>
             contains ''soundfile'' msg \<and> contains ''install'' msg
             \<and> contains ''convert to WAV'' msg)"
proof -
  define sfx where "sfx = suffix (comps path)"
  have r: "audio_duration_ms ev path = Inl (RuntimeError (soundfile_message sfx))"
    using assms by (simp add: audio_duration_ms_def sfx_def)
  have m: "soundfile_message sfx
             = ''Cannot read '' @ sfx @ ''; install `pip install soundfile` or convert to WAV.''"
    by (simp add: soundfile_message_def)
  have "soundfile_message sfx
          = (''Cannot read '' @ sfx @ ''; install `pip install '') @ ''soundfile''
              @ ''` or convert to WAV.''"
    by (simp add: soundfile_message_def)
  then have c1: "contains ''soundfile'' (soundfile_message sfx)"
    by (simp only: contains_append)
  have "soundfile_message sfx
          = (''Cannot read '' @ sfx @ ''; '') @ ''install''
              @ '' `pip install soundfile` or convert to WAV.''"
    by (simp add: soundfile_message_def)
  then have c2: "contains ''install'' (soundfile_message sfx)"
    by (simp only: contains_append)
  have "soundfile_message sfx
          = (''Cannot read '' @ sfx @ ''; install `pip install soundfile` or '')
              @ ''convert to WAV'' @ ''.''"
    by (simp add: soundfile_message_def)
  then have c3: "contains ''convert to WAV'' (soundfile_message sfx)"
    by (simp only: contains_append)
  from r m c1 c2 c3 show ?thesis unfolding sfx_def by simp
qed

text \<open>
  The file \<open>c.flac\<close> of the example, in an environment without \<open>soundfile\<close>.
\<close>

theorem soundfile_missing_witness:
  "lower (suffix (comps ex_c)) \<noteq> ''.wav'' \<and> \<not> soundfile_available ex_env
   \<and> audio_duration_ms ex_env ex_c
       = Inl (RuntimeError
               ''Cannot read .flac; install `pip install soundfile` or convert to WAV.'')
   \<and> contains ''soundfile''
         ''Cannot read .flac; install `pip install soundfile` or convert to WAV.''"
proof -
  have a: "lower (suffix (comps ex_c)) \<noteq> ''.wav''" by (simp add: ex_suffix)
  have b: "\<not> soundfile_available ex_env" by (simp add: ex_env_def)
  from soundfile_missing [OF a b] a b show ?thesis by (simp add: ex_suffix_c)
qed

text \<open>
  C10. For a \<open>.wav\<close> path with a readable header, \<open>audio_duration_ms\<close> returns a value
  exactly when the sample rate of the header is not zero; at the sample rate zero the
  unguarded division raises \<open>ZeroDivisionError\<close>.
\<close>

theorem wav_zero_sample_rate:
  assumes "lower (suffix (comps path)) = ''.wav''"
    and "wave_header path = Some (frames, sr)"
  shows "((\<exists>d. audio_duration_ms ev path = Inr d) \<longleftrightarrow> sr \<noteq> 0)
       \<and> (sr = 0 \<longrightarrow> audio_duration_ms ev path = Inl ZeroDivisionError)"
proof -
  have "audio_duration_ms ev path = duration (uint frames) (uint sr)"
    using assms by (simp add: audio_duration_ms_def)
  then show ?thesis by (simp add: duration_word)
qed

text \<open>
  The file \<open>d.wav\<close> of the example has the sample rate zero and no duration; \<open>b.wav\<close>,
  at 16000 Hz, has one.
\<close>

theorem wav_zero_sample_rate_witness:
  "lower (suffix (comps ex_d)) = ''.wav'' \<and> wave_header ex_d = Some (100, 0)
   \<and> audio_duration_ms ex_env ex_d = Inl ZeroDivisionError
   \<and> \<not> (\<exists>d. audio_duration_ms ex_env ex_d = Inr d)
   \<and> lower (suffix (comps ex_b)) = ''.wav'' \<and> wave_header ex_b = Some (8000, 16000)
   \<and> (\<exists>d. audio_duration_ms ex_env ex_b = Inr d)"
proof -
  have d: "wave_header ex_d = Some (100, 0)" by (simp add: ex_d_def)
  have b: "wave_header ex_b = Some (8000, 16000)" by (simp add: ex_b_def)
  from wav_zero_sample_rate [OF ex_suffix(4) d, of ex_env]
    wav_zero_sample_rate [OF ex_suffix(2) b, of ex_env] d b ex_suffix(4) ex_suffix(2)
  show ?thesis by simp
qed

end
